theory Spec2Isabelle
  imports Complex_Main
begin

section \<open>Python strings\<close>

text \<open>
  Texts are modelled as \<^typ>\<open>string\<close>, one \<^typ>\<open>char\<close> per code point, so the
  model covers texts whose code points lie below 256.  Case mapping is that of the ASCII
  letters; the whitespace class is the one of \<^verbatim>\<open>str.isspace\<close>, \<^verbatim>\<open>str.strip\<close> and the
  regular-expression class \<^verbatim>\<open>\s\<close> on this range.
\<close>

definition is_space :: "char \<Rightarrow> bool" where
  "is_space c = (c \<in> set [CHR '' '', CHR 0x09, CHR 0x0A, CHR 0x0B, CHR 0x0C, CHR 0x0D,
                           CHR 0x1C, CHR 0x1D, CHR 0x1E, CHR 0x1F, CHR 0x85, CHR 0xA0])"



definition lower_char :: "char \<Rightarrow> char" where
  "lower_char c =
     (case map_of (zip ''ABCDEFGHIJKLMNOPQRSTUVWXYZ'' ''abcdefghijklmnopqrstuvwxyz'') c of
        Some d \<Rightarrow> d | None \<Rightarrow> c)"

definition upper_char :: "char \<Rightarrow> char" where
  "upper_char c =
     (case map_of (zip ''abcdefghijklmnopqrstuvwxyz'' ''ABCDEFGHIJKLMNOPQRSTUVWXYZ'') c of
        Some d \<Rightarrow> d | None \<Rightarrow> c)"

definition lower :: "string \<Rightarrow> string" where
  "lower s = map lower_char s"

definition upper :: "string \<Rightarrow> string" where
  "upper s = map upper_char s"

definition lstrip :: "string \<Rightarrow> string" where
  "lstrip s = dropWhile is_space s"

definition rstrip :: "string \<Rightarrow> string" where
  "rstrip s = rev (dropWhile is_space (rev s))"

definition strip :: "string \<Rightarrow> string" where
  "strip s = rstrip (lstrip s)"

definition startswith :: "string \<Rightarrow> string \<Rightarrow> bool" where
  "startswith s p = (take (length p) s = p)"

definition endswith :: "string \<Rightarrow> string \<Rightarrow> bool" where
  "endswith s p = (length p \<le> length s \<and> drop (length s - length p) s = p)"

text \<open>\<^verbatim>\<open>sub in s\<close>: \<open>sub\<close> occurs in \<open>s\<close> as a contiguous run.\<close>

fun contains :: "string \<Rightarrow> string \<Rightarrow> bool" where
  "contains [] sub = (sub = [])"
| "contains (c # cs) sub = (startswith (c # cs) sub \<or> contains cs sub)"

text \<open>\<^verbatim>\<open>str(n)\<close> for a natural number: its decimal digits.\<close>

function str_nat :: "nat \<Rightarrow> string" where
  "str_nat n =
     (if n < 10 then [''0123456789'' ! n]
      else str_nat (n div 10) @ [''0123456789'' ! (n mod 10)])"
  by pat_completeness auto
termination
  by (relation "measure id") auto

section \<open>Type detection\<close>

definition SINGLE_KEYWORDS :: "string list" where
  "SINGLE_KEYWORDS =
     [''single selection'', ''single choice'', ''single select'',
      ''select one'', ''[single'', ''unaided single'']"

definition MULTIPLE_KEYWORDS :: "string list" where
  "MULTIPLE_KEYWORDS =
     [''multiple selection'', ''multiple choice'', ''multiple select'',
      ''multi selection'', ''multi select'', ''[multiple'', ''[multi'',
      ''aided multiple'', ''unaided multiple'']"

text \<open>
  The keyword scan of \<^verbatim>\<open>get_auto_type\<close>, reached only when the question is neither
  bipolar nor has rank labels.
\<close>

definition keyword_type :: "string \<Rightarrow> string" where
  "keyword_type q_text =
     (let q_lower = lower q_text in
      if list_ex (contains q_lower) SINGLE_KEYWORDS then ''Single''
      else if list_ex (contains q_lower) MULTIPLE_KEYWORDS then ''Multiple''
      else '''')"

definition get_auto_type :: "string \<Rightarrow> string list \<Rightarrow> string list \<Rightarrow> bool \<Rightarrow> string" where
  "get_auto_type q_text rank_labels options is_bipolar =
     (if is_bipolar then ''Bipolar''
      else if rank_labels \<noteq> [] then ''Matrix''
      else keyword_type q_text)"

section \<open>Formula mutation helpers of the cuts engine\<close>

text \<open>
  Both helpers are only called on cell values that are strings (the callers test
  \<^verbatim>\<open>isinstance(..., str)\<close> first), so the formula is a \<^typ>\<open>string\<close>; the empty
  string is the falsy case of \<^verbatim>\<open>if not formula\<close>.
\<close>

definition raw_range :: "string \<Rightarrow> string" where
  "raw_range cut_raw_col_letter =
     '''Raw Data'!$'' @ cut_raw_col_letter @ ''$3:$'' @ cut_raw_col_letter @ ''$8000''"

definition add_demographic_filter_to_formula :: "string \<Rightarrow> string \<Rightarrow> string \<Rightarrow> string" where
  "add_demographic_filter_to_formula formula cut_raw_col_letter header_cell_ref =
     (if formula = [] then formula
      else
        let f_str_body = (if startswith formula ''='' then drop 1 formula else formula) in
        if \<not> endswith f_str_body '')'' then formula
        else
          let extra = '', '' @ raw_range cut_raw_col_letter @ '','' @ header_cell_ref @ '')''
          in ''='' @ butlast f_str_body @ extra)"

definition modify_multiple_select_n_formula :: "string \<Rightarrow> string \<Rightarrow> string \<Rightarrow> string" where
  "modify_multiple_select_n_formula base_formula cut_raw_col_letter header_cell_ref =
     (if base_formula = [] then base_formula
      else
        let f_str = strip base_formula in
        if \<not> startswith (upper f_str) ''=SUMPRODUCT'' then base_formula
        else if \<not> endswith f_str ''*1)'' then base_formula
        else
          let formula_body = take (length f_str - 3) f_str;
              demographic_filter =
                ''*('' @ raw_range cut_raw_col_letter @ ''='' @ header_cell_ref @ '')''
          in formula_body @ demographic_filter @ ''*1)'')"

section \<open>Column letters\<close>

text \<open>
  \<^verbatim>\<open>get_excel_column_letter\<close>: the loop prepends one letter per round and divides the
  column number; \<open>excel_letters\<close> is that loop with the letters built so far.
\<close>

function excel_letters :: "nat \<Rightarrow> string \<Rightarrow> string" where
  "excel_letters col_num letter =
     (if col_num > 0
      then excel_letters ((col_num - 1) div 26)
             ((''ABCDEFGHIJKLMNOPQRSTUVWXYZ'' ! ((col_num - 1) mod 26)) # letter)
      else letter)"
  by pat_completeness auto
termination
  by (relation "measure fst") auto

definition get_excel_column_letter :: "nat \<Rightarrow> string" where
  "get_excel_column_letter col_num = excel_letters col_num []"

text \<open>
  The cuts engine calls the spreadsheet library's \<^verbatim>\<open>get_column_letter\<close>, which yields
  the same letters for the columns 1 to 18278 and raises \<^verbatim>\<open>ValueError\<close> outside
  (\<open>None\<close> here).
\<close>

definition get_column_letter :: "int \<Rightarrow> string option" where
  "get_column_letter idx =
     (if 1 \<le> idx \<and> idx \<le> 18278 then Some (get_excel_column_letter (nat idx)) else None)"

section \<open>Cuts engine: column allocation\<close>

text \<open>The record that \<^verbatim>\<open>find_question_blocks\<close> builds for each block of the sheet.\<close>

record block =
  header_row :: nat
  first_option_row :: nat
  last_option_row :: nat
  n_row :: nat
  q_type :: string
  is_matrix :: bool
  is_bipolar :: bool
  num_rating_cols :: nat

text \<open>A cut as \<^verbatim>\<open>load_cuts_from_template\<close> returns it (its label index is not used).\<close>

record cut =
  raw_col_index :: int
  categories :: "string list"

record cut_block =
  cb_raw_col_index :: int
  raw_col_letter :: string
  cb_categories :: "string list"
  num_cat :: nat
  start_col :: int
  end_col :: int
  max_width :: nat

text \<open>
  The inner loop over the blocks: starting from \<open>2 * num_cat\<close>, a matrix block raises
  the width to \<open>nr + 1 + nr\<close>, and a block that is not matrix but bipolar raises it to 5.
\<close>

definition widen :: "block \<Rightarrow> nat \<Rightarrow> nat" where
  "widen b max_cut_width =
     (if is_matrix b then max max_cut_width (num_rating_cols b + 1 + num_rating_cols b)
      else if is_bipolar b then max max_cut_width 5
      else max_cut_width)"

definition cut_width :: "block list \<Rightarrow> nat \<Rightarrow> nat" where
  "cut_width blocks n = fold widen blocks (2 * n)"

text \<open>
  The loop over the cuts of \<^verbatim>\<open>apply_cuts_to_databook\<close>, from the current start column;
  an invalid raw column index aborts the whole run.
\<close>

fun allocate_cuts :: "block list \<Rightarrow> int \<Rightarrow> cut list \<Rightarrow> cut_block list option" where
  "allocate_cuts blocks current_start_col [] = Some []"
| "allocate_cuts blocks current_start_col (c # cuts) =
     (let n = length (categories c);
          max_cut_width = cut_width blocks n;
          e = current_start_col + int max_cut_width - 1
      in case get_column_letter (raw_col_index c) of
           None \<Rightarrow> None
         | Some l \<Rightarrow>
             map_option
               ((#) \<lparr>cb_raw_col_index = raw_col_index c, raw_col_letter = l,
                     cb_categories = categories c, num_cat = n,
                     start_col = current_start_col, end_col = e,
                     max_width = max_cut_width\<rparr>)
               (allocate_cuts blocks (e + 7) cuts))"


section \<open>Multi-select token splitting\<close>

text \<open>
  \<^verbatim>\<open>split_multi_select_options\<close> splits on the pattern \<^verbatim>\<open>,\s*(?![^()]*\))\<close>.  The
  look-ahead \<^verbatim>\<open>[^()]*\)\<close> succeeds on a text exactly when its first parenthesis
  character is a closing one: that is \<open>closes_first\<close>.  Whitespace is not a
  parenthesis, so giving back whitespace of \<^verbatim>\<open>\s*\<close> never changes the look-ahead, and
  a comma that separates takes the whole run of whitespace after it.
\<close>

fun closes_first :: "string \<Rightarrow> bool" where
  "closes_first [] = False"
| "closes_first (c # cs) =
     (if c = CHR '')'' then True else if c = CHR ''('' then False else closes_first cs)"

text \<open>\<^verbatim>\<open>re.split\<close> with this pattern; \<open>acc\<close> holds the current piece, reversed.\<close>

function re_split_commas :: "string \<Rightarrow> string \<Rightarrow> string list" where
  "re_split_commas acc [] = [rev acc]"
| "re_split_commas acc (c # cs) =
     (if c = CHR '','' \<and> \<not> closes_first cs
      then rev acc # re_split_commas [] (dropWhile is_space cs)
      else re_split_commas (c # acc) cs)"
  by pat_completeness auto
termination
  by (relation "measure (\<lambda>(acc, s). length s)")
     (auto simp: less_Suc_eq_le length_dropWhile_le)

definition split_multi_select_options :: "string \<Rightarrow> string list" where
  "split_multi_select_options text =
     filter (\<lambda>p. p \<noteq> []) (map strip (re_split_commas [] text))"

text \<open>
  The reading of the specification, for comparison: split at the commas that stand
  outside every pair of parentheses, \<open>d\<close> being the number of parentheses open so far.
\<close>

function split_outside_parens :: "nat \<Rightarrow> string \<Rightarrow> string \<Rightarrow> string list" where
  "split_outside_parens d acc [] = [rev acc]"
| "split_outside_parens d acc (c # cs) =
     (if c = CHR '','' \<and> d = 0
      then rev acc # split_outside_parens d [] (dropWhile is_space cs)
      else split_outside_parens
             (if c = CHR ''('' then d + 1 else if c = CHR '')'' then d - 1 else d)
             (c # acc) cs)"
  by pat_completeness auto
termination
  by (relation "measure (\<lambda>(d, acc, s). length s)")
     (auto simp: less_Suc_eq_le length_dropWhile_le)

text \<open>
  Parentheses that are balanced and not nested; \<open>inside\<close> tells whether one is open.
\<close>

fun flat_parens :: "bool \<Rightarrow> string \<Rightarrow> bool" where
  "flat_parens inside [] = (\<not> inside)"
| "flat_parens inside (c # cs) =
     (if c = CHR ''('' then \<not> inside \<and> flat_parens True cs
      else if c = CHR '')'' then inside \<and> flat_parens False cs
      else flat_parens inside cs)"

section \<open>NPS expansion\<close>

text \<open>
  The endpoint patterns are \<^verbatim>\<open>1\s+means?\s+["\u201c]?([^"\u201d]+)\<close> and the same with
  \<^verbatim>\<open>10\<close>, searched without regard to case.  The two curly quotes lie outside the
  8-bit range of this model, which leaves the straight double quote \<open>dquote\<close>.

  \<open>means_group s\<close> matches the part of the pattern after the number at the start of
  \<open>s\<close> and yields the captured group.  Each whitespace run must be taken whole for the
  next letter to match, and the optional \<^verbatim>\<open>s\<close> cannot be given back since whitespace
  must follow.  The group runs from the first character after the optional quote up to
  the next quote or the end of the text.  Only when no character is left for the group
  (the text ends, or a quote is followed by a quote or by the end) does the matcher give
  back the last character of the second whitespace run, which then is the whole group.
\<close>

definition dquote :: char where
  "dquote = CHR 0x22"

definition means_group :: "string \<Rightarrow> string option" where
  "means_group s =
     (let w1 = takeWhile is_space s; r1 = dropWhile is_space s in
      if w1 = [] \<or> lower (take 4 r1) \<noteq> ''mean'' then None
      else
        let r2 = drop 4 r1;
            r3 = (if r2 \<noteq> [] \<and> lower_char (hd r2) = CHR ''s'' then tl r2 else r2);
            w2 = takeWhile is_space r3;
            r4 = dropWhile is_space r3
        in if w2 = [] then None
           else if r4 \<noteq> [] \<and> hd r4 = dquote \<and> tl r4 \<noteq> [] \<and> hd (tl r4) \<noteq> dquote
             then Some (takeWhile (\<lambda>c. c \<noteq> dquote) (tl r4))
           else if r4 \<noteq> [] \<and> hd r4 \<noteq> dquote
             then Some (takeWhile (\<lambda>c. c \<noteq> dquote) r4)
           else if 2 \<le> length w2 then Some [last w2]
           else None)"

text \<open>\<^verbatim>\<open>re.search\<close>: the match at the leftmost position where the pattern matches.\<close>

fun search_means :: "string \<Rightarrow> string \<Rightarrow> string option" where
  "search_means num [] = None"
| "search_means num (c # cs) =
     (if startswith (c # cs) num
      then (case means_group (drop (length num) (c # cs)) of
              Some g \<Rightarrow> Some g
            | None \<Rightarrow> search_means num cs)
      else search_means num cs)"

definition expand_nps_if_needed :: "string \<Rightarrow> string list \<Rightarrow> string list" where
  "expand_nps_if_needed q_text options =
     (let q_lower = lower q_text in
      if contains q_lower ''1 to 10'' \<or> contains q_lower ''1-10'' \<or>
         contains q_lower ''scale of 0 to 10''
      then
        let labels =
              (case search_means ''1'' q_text of
                 Some g \<Rightarrow> [(''1'', ''1- '' @ strip g)] | None \<Rightarrow> []) @
              (case search_means ''10'' q_text of
                 Some g \<Rightarrow> [(''10'', ''10- '' @ strip g)] | None \<Rightarrow> [])
        in map (\<lambda>i. let key = str_nat i
                    in case map_of labels key of Some l \<Rightarrow> l | None \<Rightarrow> key)
             [1..<11]
      else options)"

section \<open>Options file: bipolar pole pairs\<close>

text \<open>
  A table cell is \<open>None\<close> when it is missing (\<^verbatim>\<open>NaN\<close>) and otherwise carries the text
  that \<^verbatim>\<open>str\<close> gives for its value.
\<close>

type_synonym cell = "string option"

definition dropna :: "cell list \<Rightarrow> string list" where
  "dropna xs = List.map_filter id xs"

text \<open>\<^verbatim>\<open>drop_duplicates(keep='first')\<close>: later repetitions of a value are removed.\<close>

function drop_duplicates :: "'a list \<Rightarrow> 'a list" where
  "drop_duplicates [] = []"
| "drop_duplicates (x # xs) = x # drop_duplicates (filter (\<lambda>y. y \<noteq> x) xs)"
  by pat_completeness auto
termination
  by (relation "measure length") (auto simp: less_Suc_eq_le)

text \<open>
  The separator pattern \<^verbatim>\<open>\s+or\s+\<close>, matched without regard to case at the start of a
  text; the result is the text after the match.  Each whitespace run is taken whole: the
  first because a letter must follow it, the second because the matcher is greedy.
\<close>

definition or_sep_at :: "string \<Rightarrow> string option" where
  "or_sep_at s =
     (let w = takeWhile is_space s; r = dropWhile is_space s in
      if w \<noteq> [] \<and> lower (take 2 r) = ''or'' \<and> takeWhile is_space (drop 2 r) \<noteq> []
      then Some (dropWhile is_space (drop 2 r))
      else None)"

text \<open>
  \<^verbatim>\<open>re.split(pattern, opt, maxsplit=1)\<close>: the text before and after the leftmost match,
  \<open>None\<close> when the pattern matches nowhere (the list of parts then has one element).
\<close>

fun split_or :: "string \<Rightarrow> string \<Rightarrow> (string \<times> string) option" where
  "split_or acc [] = None"
| "split_or acc (c # cs) =
     (case or_sep_at (c # cs) of
        Some rest \<Rightarrow> Some (rev acc, rest)
      | None \<Rightarrow> split_or (c # acc) cs)"

text \<open>
  One round of the loop over the options; \<open>None\<close> is the \<^verbatim>\<open>IndexError\<close> of
  \<^verbatim>\<open>parts[1]\<close> on a list of one part.
\<close>

definition pole_pair :: "string \<Rightarrow> (string \<times> string) option" where
  "pole_pair opt =
     (if contains (lower opt) '' or ''
      then (case split_or [] opt of
              Some (p0, p1) \<Rightarrow> Some (strip p0, strip p1)
            | None \<Rightarrow> None)
      else Some (opt, ''''))"

text \<open>
  The options of one question group of \<^verbatim>\<open>load_options_file\<close>, from the cells of its
  \<^verbatim>\<open>Option\<close> column, and the configuration entry of a bipolar question.
\<close>

definition group_options :: "cell list \<Rightarrow> string list" where
  "group_options option_cells = map strip (dropna (drop_duplicates option_cells))"

record bipolar_entry =
  be_options :: "string list"
  be_pole_pairs :: "(string \<times> string) list"

definition bipolar_config :: "cell list \<Rightarrow> bipolar_entry option" where
  "bipolar_config option_cells =
     (let opts = group_options option_cells in
      map_option (\<lambda>pairs. \<lparr>be_options = opts, be_pole_pairs = pairs\<rparr>)
        (those (map pole_pair opts)))"

text \<open>
  The reading of the specification, for comparison: split at the first occurrence of the
  token \<open>sep\<close>, compared without regard to case.
\<close>

fun split_first_token :: "string \<Rightarrow> string \<Rightarrow> string \<Rightarrow> (string \<times> string) option" where
  "split_first_token sep acc [] = None"
| "split_first_token sep acc (c # cs) =
     (if lower (take (length sep) (c # cs)) = sep
      then Some (rev acc, drop (length sep) (c # cs))
      else split_first_token sep (c # acc) cs)"

section \<open>Tabulation engine\<close>

text \<open>
  The respondent table is a list of rows of cells.  \<^verbatim>\<open>frame.iloc[r, c]\<close> raises
  \<^verbatim>\<open>IndexError\<close> out of range: \<open>iloc\<close> yields \<open>None\<close> then.
\<close>

type_synonym frame = "cell list list"

definition iloc :: "cell list \<Rightarrow> nat \<Rightarrow> cell option" where
  "iloc row c = (if c < length row then Some (row ! c) else None)"

text \<open>
  Percentages are binary floating-point numbers in the source.  Their arithmetic is not
  modelled: \<open>Rounded c b\<close> stands for the float \<^verbatim>\<open>round((c / b) * 100, 1)\<close> and
  \<open>Zero_pct\<close> for the literal \<^verbatim>\<open>0.0\<close>.
\<close>

datatype percentage = Zero_pct | Rounded nat nat

text \<open>
  The expression \<^verbatim>\<open>round((count / total_base) * 100, 1) if total_base > 0 else 0.0\<close>, which
  every tabulation path uses.
\<close>

definition percentage_of :: "nat \<Rightarrow> nat \<Rightarrow> percentage" where
  "percentage_of cnt total_base =
     (if total_base > 0 then Rounded cnt total_base else Zero_pct)"


record result_row =
  res_option :: string
  res_count :: nat
  res_percentage :: percentage
  res_base :: nat

text \<open>\<^verbatim>\<open>', '.join(values)\<close>.\<close>

fun join :: "string \<Rightarrow> string list \<Rightarrow> string" where
  "join sep [] = []"
| "join sep [x] = x"
| "join sep (x # y # ys) = x @ sep @ join sep (y # ys)"

text \<open>The text a cell contributes to the merged value of its row, if any.\<close>

definition cell_text :: "cell \<Rightarrow> string list" where
  "cell_text v = (case v of None \<Rightarrow> [] | Some s \<Rightarrow> (if strip s \<noteq> [] then [strip s] else []))"

definition merge_row :: "nat \<Rightarrow> nat list \<Rightarrow> cell list \<Rightarrow> cell option" where
  "merge_row main_col unnamed row =
     (case those (map (iloc row) (main_col # unnamed)) of
        None \<Rightarrow> None
      | Some vals \<Rightarrow>
          let values = concat (map cell_text vals)
          in Some (if values \<noteq> [] then Some (join '', '' values) else None))"

definition merge_unnamed_columns :: "frame \<Rightarrow> nat \<Rightarrow> nat list \<Rightarrow> cell list option" where
  "merge_unnamed_columns df main_col unnamed = those (map (merge_row main_col unnamed) df)"

text \<open>
  \<^verbatim>\<open>value_counts()\<close>: every distinct value with the number of its occurrences, by
  falling count; equal counts are kept in the order of first appearance here (the
  library does not fix that order, and nothing below depends on it).
\<close>

definition value_counts :: "string list \<Rightarrow> (string \<times> nat) list" where
  "value_counts xs =
     sort_key (\<lambda>(v, n). - int n) (map (\<lambda>v. (v, count_list xs v)) (drop_duplicates xs))"



text \<open>The tokens that one entry of the series adds to \<^verbatim>\<open>all_options\<close>.\<close>

definition cell_tokens :: "string \<Rightarrow> string list" where
  "cell_tokens val =
     (let val_str = strip val
      in if val_str \<noteq> [] \<and> val_str \<notin> set [''Response'', ''Open-Ended Response'']
         then split_multi_select_options val_str
         else [])"

definition process_multi_select :: "cell list \<Rightarrow> string list \<Rightarrow> result_row list" where
  "process_multi_select series opts =
     (let all_options = concat (map cell_tokens (dropna series));
          total_base = length (dropna series)
      in if opts \<noteq> []
         then map (\<lambda>opt. \<lparr>res_option = opt, res_count = count_list all_options opt,
                           res_percentage = percentage_of (count_list all_options opt) total_base,
                           res_base = total_base\<rparr>) opts
         else sort_key (\<lambda>r. - int (res_count r))
                (map (\<lambda>(opt, n). \<lparr>res_option = opt, res_count = n,
                                    res_percentage = percentage_of n total_base,
                                    res_base = total_base\<rparr>)
                   (value_counts all_options)))"

subsection \<open>Matrix processor\<close>
















section \<open>Grid segmentation\<close>














subsection \<open>Bipolar detection\<close>





subsection \<open>Matrix and horizontal scale detection\<close>







subsection \<open>The segmentation loop\<close>

record question =
  q_text :: string
  q_options :: "string list"
  q_rank_labels :: "string list"
  q_is_bipolar :: bool





















section \<open>Cuts engine: writing the cut columns\<close>

text \<open>
  The results sheet, by the values of its cells: \<open>ws r c\<close> is
  \<^verbatim>\<open>ws.cell(row=r, column=c).value\<close>.  Styles, fills and number formats are left out.
\<close>

datatype cell_val = Blank | Str string | Num int

type_synonym sheet = "nat \<Rightarrow> nat \<Rightarrow> cell_val"

definition put :: "nat \<Rightarrow> nat \<Rightarrow> cell_val \<Rightarrow> sheet \<Rightarrow> sheet" where
  "put r c v ws = ws(r := (ws r)(c := v))"










subsection \<open>Bipolar blocks\<close>







subsection \<open>Matrix blocks\<close>





subsection \<open>Single and multiple blocks\<close>







subsection \<open>All blocks and all cuts\<close>





text \<open>Example sheet: one single-select block with two options.\<close>

definition ex_sheet :: sheet where
  "ex_sheet =
     put 6 1 (Str ''Q1. Do you agree?'')
       (put 7 1 (Str ''Type: Single | Base: '')
          (put 8 1 (Str ''Response Option'') (put 8 2 (Str ''N'') (put 8 3 (Str ''%'')
             (put 9 1 (Str ''Yes'') (put 9 2 (Str ''=COUNTIFS('Raw Data'!$B$3:$B$8000,A9)'')
                (put 10 1 (Str ''No'') (put 10 2 (Str ''=COUNTIFS('Raw Data'!$B$3:$B$8000,A10)'')
                   (put 11 1 (Str ''N'') (put 11 2 (Str ''=SUM(B9:B10)'')
                      (\<lambda>r c. Blank)))))))))))"

definition ex_flat_block :: block where
  "ex_flat_block =
     \<lparr>header_row = 8, first_option_row = 9, last_option_row = 10, n_row = 11,
      q_type = ''single'', is_matrix = False, is_bipolar = False, num_rating_cols = 0\<rparr>"

definition ex_gender_cut :: cut where
  "ex_gender_cut = \<lparr>raw_col_index = 3, categories = [''Male'', ''Female'']\<rparr>"




text \<open>
  Example sheets: one bipolar block and one matrix block, each with one attribute, as the
  tabulation writes them; the header row has six cells, so the first cut starts in
  column 13.
\<close>

definition ex_bipolar_sheet :: sheet where
  "ex_bipolar_sheet =
     put 6 1 (Str ''Q1. How is the price?'')
       (put 7 1 (Str ''Type: Bipolar | Base: '')
          (put 8 1 (Str ''Response Option'') (put 8 2 (Str ''Cheap'') (put 8 3 (Str ''Expensive'')
             (put 8 4 (Str ''N'') (put 8 5 (Str ''Cheap'') (put 8 6 (Str ''Expensive'')
                (put 9 1 (Str ''Price'')
                   (put 9 2 (Str (''=COUNTIFS('Raw Data'!$B$3:$B$8000,'' @ [dquote] @ ''Cheap'' @
                                  [dquote] @ '')''))
                      (put 9 3 (Str (''=COUNTIFS('Raw Data'!$B$3:$B$8000,'' @ [dquote] @
                                     ''Expensive'' @ [dquote] @ '')''))
                         (put 9 4 (Str ''=COUNTA('Raw Data'!$B$3:$B$8000)'')
                            (put 9 5 (Str ''=IFERROR(B9/D9*100,0)'')
                               (put 9 6 (Str ''=IFERROR(C9/D9*100,0)'')
                                  (\<lambda>r c. Blank))))))))))))))"

definition ex_bipolar_block :: block where
  "ex_bipolar_block =
     \<lparr>header_row = 8, first_option_row = 9, last_option_row = 9, n_row = 9,
      q_type = ''bipolar'', is_matrix = False, is_bipolar = True, num_rating_cols = 2\<rparr>"

definition ex_matrix_sheet :: sheet where
  "ex_matrix_sheet =
     put 6 1 (Str ''Q1. Rate the price'')
       (put 7 1 (Str ''Type: Matrix | Base: '')
          (put 8 1 (Str ''Response Option'') (put 8 2 (Str ''Agree'') (put 8 3 (Str ''Disagree'')
             (put 8 4 (Str ''N'') (put 8 5 (Str ''Agree'') (put 8 6 (Str ''Disagree'')
                (put 9 1 (Str ''Price'')
                   (put 9 2 (Str ''=COUNTIFS('Raw Data'!$B$3:$B$8000,$B$8)'')
                      (put 9 3 (Str ''=COUNTIFS('Raw Data'!$B$3:$B$8000,$C$8)'')
                         (put 9 4 (Str ''=SUMPRODUCT((LEN('Raw Data'!$B$3:$B$8000)>0)*1)'')
                            (put 9 5 (Str ''=IFERROR(B9/D9*100,0)'')
                               (put 9 6 (Str ''=IFERROR(C9/D9*100,0)'')
                                  (\<lambda>r c. Blank))))))))))))))"

definition ex_matrix_block :: block where
  "ex_matrix_block =
     \<lparr>header_row = 8, first_option_row = 9, last_option_row = 9, n_row = 9,
      q_type = ''matrix'', is_matrix = True, is_bipolar = False, num_rating_cols = 2\<rparr>"

text \<open>The cut blocks of the cut by gender, starting in column 10 and in column 13.\<close>

definition ex_cut_block :: "int \<Rightarrow> nat \<Rightarrow> cut_block" where
  "ex_cut_block start width =
     \<lparr>cb_raw_col_index = 3, raw_col_letter = ''C'', cb_categories = [''Male'', ''Female''],
      num_cat = 2, start_col = start, end_col = start + int width - 1, max_width = width\<rparr>"

section \<open>Evaluation of the string functions\<close>

lemmas str_eval = lower_def lower_char_def is_space_def strip_def lstrip_def rstrip_def
  startswith_def dquote_def

section \<open>Properties of type detection\<close>

lemma keyword_type_cases:
  "keyword_type q \<in> {''Single'', ''Multiple'', ''''}"
  by (simp add: keyword_type_def Let_def)

text \<open>
  Claim C6.  A question with rank labels is typed Matrix or Bipolar, never Single or
  Multiple: the detector answers Bipolar whenever the bipolar flag is set, Matrix
  whenever rank labels are present and the flag is not set, and only in the remaining
  case runs the keyword scan, whose answer is Single, Multiple or the empty string.
\<close>

theorem get_auto_type_shape:
  "(bip \<longrightarrow> get_auto_type q ranks opts bip = ''Bipolar'') \<and>
   (\<not> bip \<and> ranks \<noteq> [] \<longrightarrow> get_auto_type q ranks opts bip = ''Matrix'') \<and>
   (ranks \<noteq> [] \<longrightarrow>
      get_auto_type q ranks opts bip \<in> {''Matrix'', ''Bipolar''} \<and>
      get_auto_type q ranks opts bip \<noteq> ''Single'' \<and>
      get_auto_type q ranks opts bip \<noteq> ''Multiple'') \<and>
   (\<not> bip \<and> ranks = [] \<longrightarrow>
      get_auto_type q ranks opts bip = keyword_type q \<and>
      get_auto_type q ranks opts bip \<in> {''Single'', ''Multiple'', ''''})"
  using keyword_type_cases [of q] by (simp add: get_auto_type_def)

theorem get_auto_type_shape_witness:
  "get_auto_type ''Rate each brand [single choice]'' [''Agree'', ''Disagree''] [''Price''] True
     = ''Bipolar'' \<and>
   get_auto_type ''Rate each brand [single choice]'' [''Agree'', ''Disagree''] [''Price''] False
     = ''Matrix'' \<and>
   get_auto_type ''Pick your brand [Single choice]'' [] [''A'', ''B''] False = ''Single''"
proof -
  have k: "keyword_type ''Pick your brand [Single choice]'' = ''Single''"
    by (simp add: keyword_type_def lower_def lower_char_def SINGLE_KEYWORDS_def startswith_def)
  show ?thesis
    using get_auto_type_shape [where bip = True and q = "''Rate each brand [single choice]''"
                                 and ranks = "[''Agree'', ''Disagree'']" and opts = "[''Price'']"]
          get_auto_type_shape [where bip = False and q = "''Rate each brand [single choice]''"
                                 and ranks = "[''Agree'', ''Disagree'']" and opts = "[''Price'']"]
          get_auto_type_shape [where bip = False and q = "''Pick your brand [Single choice]''"
                                 and ranks = "[]" and opts = "[''A'', ''B'']"] k
    by simp
qed

section \<open>Properties of the formula helpers\<close>

lemma endswith_append [simp]: "endswith (b @ p) p"
  by (simp add: endswith_def)

lemma startswith_append [simp]: "startswith (p @ b) p"
  by (simp add: startswith_def)

text \<open>
  Claim C10, as the code has it.  \<^verbatim>\<open>add_demographic_filter_to_formula\<close> returns its
  input when the body (the formula without a leading equals sign) does not end with a
  closing parenthesis; otherwise it returns an equals sign, the body without that
  parenthesis and the two filter arguments, which for a formula that starts with an
  equals sign is the input with the arguments inserted before the final parenthesis.
  \<^verbatim>\<open>modify_multiple_select_n_formula\<close> tests the input with surrounding whitespace
  stripped: it returns the input itself when the stripped text does not start with
  \<^verbatim>\<open>=SUMPRODUCT\<close> (in any case) or does not end with \<^verbatim>\<open>*1)\<close>, and otherwise the
  stripped text with the filter factor inserted before the final \<^verbatim>\<open>*1)\<close>.
\<close>

theorem formula_helpers_conforming:
  "(\<not> endswith (if startswith f ''='' then drop 1 f else f) '')'' \<longrightarrow>
      add_demographic_filter_to_formula f l r = f) \<and>
   (f \<noteq> [] \<and> endswith (if startswith f ''='' then drop 1 f else f) '')'' \<longrightarrow>
      add_demographic_filter_to_formula f l r =
        ''='' @ butlast (if startswith f ''='' then drop 1 f else f) @
        '', '' @ raw_range l @ '','' @ r @ '')'') \<and>
   add_demographic_filter_to_formula (''='' @ b @ '')'') l r =
     ''='' @ b @ '', '' @ raw_range l @ '','' @ r @ '')'' \<and>
   (\<not> startswith (upper (strip f)) ''=SUMPRODUCT'' \<or> \<not> endswith (strip f) ''*1)'' \<longrightarrow>
      modify_multiple_select_n_formula f l r = f) \<and>
   (startswith (upper (strip f)) ''=SUMPRODUCT'' \<and> strip f = b @ ''*1)'' \<longrightarrow>
      modify_multiple_select_n_formula f l r =
        b @ ''*('' @ raw_range l @ ''='' @ r @ '')'' @ ''*1)'')"
proof (intro conjI impI)
  show "add_demographic_filter_to_formula (''='' @ b @ '')'') l r =
          ''='' @ b @ '', '' @ raw_range l @ '','' @ r @ '')''"
    by (simp add: add_demographic_filter_to_formula_def startswith_def endswith_def
                  butlast_append)
next
  assume a: "startswith (upper (strip f)) ''=SUMPRODUCT'' \<and> strip f = b @ ''*1)''"
  then have s: "strip f = b @ ''*1)''"
    and u: "startswith (upper (b @ ''*1)'')) ''=SUMPRODUCT''"
    by auto
  from s have n: "f \<noteq> []"
    by (auto simp: strip_def rstrip_def lstrip_def)
  show "modify_multiple_select_n_formula f l r =
          b @ ''*('' @ raw_range l @ ''='' @ r @ '')'' @ ''*1)''"
    by (simp add: modify_multiple_select_n_formula_def Let_def endswith_def s u n)
qed (auto simp: add_demographic_filter_to_formula_def modify_multiple_select_n_formula_def
                Let_def)

theorem formula_helpers_conforming_witness:
  "add_demographic_filter_to_formula ''5'' ''C'' ''$J$8'' = ''5'' \<and>
   add_demographic_filter_to_formula ''=COUNTIFS('Raw Data'!$B$3:$B$8000,A9)'' ''C'' ''$J$8'' =
     ''=COUNTIFS('Raw Data'!$B$3:$B$8000,A9, 'Raw Data'!$C$3:$C$8000,$J$8)'' \<and>
   modify_multiple_select_n_formula ''=SUM(B9:B11)'' ''C'' ''$J$8'' = ''=SUM(B9:B11)'' \<and>
   modify_multiple_select_n_formula ''=sumproduct((LEN(B3:B8000)>0)*1)'' ''C'' ''$J$8'' =
     ''=sumproduct((LEN(B3:B8000)>0)*('Raw Data'!$C$3:$C$8000=$J$8)*1)''"
proof -
  have s: "strip ''=sumproduct((LEN(B3:B8000)>0)*1)'' = ''=sumproduct((LEN(B3:B8000)>0)'' @ ''*1)''"
          "strip ''=SUM(B9:B11)'' = ''=SUM(B9:B11)''"
    by (simp_all add: strip_def lstrip_def rstrip_def is_space_def)
  have u: "startswith (upper (''=sumproduct((LEN(B3:B8000)>0)'' @ ''*1)'')) ''=SUMPRODUCT''"
          "\<not> startswith (upper ''=SUM(B9:B11)'') ''=SUMPRODUCT''"
    by (simp_all add: startswith_def upper_def upper_char_def)
  have e: "\<not> endswith ''5'' '')''"
          "endswith ''COUNTIFS('Raw Data'!$B$3:$B$8000,A9)'' '')''"
    by (simp_all add: endswith_def)
  show ?thesis
    using formula_helpers_conforming [of "''5''" "''C''" "''$J$8''"]
          formula_helpers_conforming
            [of "''=COUNTIFS('Raw Data'!$B$3:$B$8000,A9)''" "''C''" "''$J$8''"]
          formula_helpers_conforming [of "''=SUM(B9:B11)''" "''C''" "''$J$8''"]
          formula_helpers_conforming
            [of "''=sumproduct((LEN(B3:B8000)>0)*1)''" "''C''" "''$J$8''"
                "''=sumproduct((LEN(B3:B8000)>0)''"]
          s u e
    by (simp add: startswith_def raw_range_def)
qed

text \<open>
  Claim C10 as stated fails on two inputs.  A formula with a leading blank does not start
  with \<^verbatim>\<open>=SUMPRODUCT\<close>, yet it is rewritten (and loses the blank); and a conforming
  formula without a leading equals sign gets one prepended, a character that is not part
  of the filter arguments.
\<close>

theorem formula_helpers_counterexample:
  "\<not> startswith (upper '' =SUMPRODUCT((LEN(B3:B8000)>0)*1)'') ''=SUMPRODUCT'' \<and>
   modify_multiple_select_n_formula '' =SUMPRODUCT((LEN(B3:B8000)>0)*1)'' ''C'' ''$J$8'' =
     ''=SUMPRODUCT((LEN(B3:B8000)>0)*('Raw Data'!$C$3:$C$8000=$J$8)*1)'' \<and>
   endswith ''SUM(B9:B11)'' '')'' \<and>
   add_demographic_filter_to_formula ''SUM(B9:B11)'' ''C'' ''$J$8'' =
     ''=SUM(B9:B11, 'Raw Data'!$C$3:$C$8000,$J$8)''"
  by (simp add: modify_multiple_select_n_formula_def add_demographic_filter_to_formula_def
                startswith_def endswith_def upper_def upper_char_def strip_def lstrip_def
                rstrip_def is_space_def raw_range_def)

section \<open>Properties of the column allocation\<close>

lemma widen_ge: "w \<le> widen b w"
  by (simp add: widen_def)

lemma fold_widen_ge: "w \<le> fold widen blocks w"
proof (induction blocks arbitrary: w)
  case Nil
  then show ?case by simp
next
  case (Cons a blocks)
  have "w \<le> widen a w" by (rule widen_ge)
  also have "\<dots> \<le> fold widen blocks (widen a w)" by (rule Cons.IH)
  finally show ?case by simp
qed


lemma fold_widen_matrix:
  "b \<in> set blocks \<Longrightarrow> is_matrix b \<Longrightarrow>
   2 * num_rating_cols b + 1 \<le> fold widen blocks w"
proof (induction blocks arbitrary: w)
  case Nil
  then show ?case by simp
next
  case (Cons a blocks)
  show ?case
  proof (cases "b = a")
    case True
    with Cons.prems have "2 * num_rating_cols b + 1 \<le> widen a w"
      by (simp add: widen_def)
    also have "\<dots> \<le> fold widen blocks (widen a w)"
      by (rule fold_widen_ge)
    finally show ?thesis by simp
  next
    case False
    with Cons show ?thesis by simp
  qed
qed

lemma fold_widen_bipolar:
  "b \<in> set blocks \<Longrightarrow> is_bipolar b \<Longrightarrow> \<not> is_matrix b \<Longrightarrow> 5 \<le> fold widen blocks w"
proof (induction blocks arbitrary: w)
  case Nil
  then show ?case by simp
next
  case (Cons a blocks)
  show ?case
  proof (cases "b = a")
    case True
    with Cons.prems have "5 \<le> widen a w"
      by (simp add: widen_def)
    also have "\<dots> \<le> fold widen blocks (widen a w)"
      by (rule fold_widen_ge)
    finally show ?thesis by simp
  next
    case False
    with Cons show ?thesis by simp
  qed
qed

lemma allocate_cuts_start:
  "allocate_cuts blocks cur cuts = Some cbs \<Longrightarrow> cb \<in> set cbs \<Longrightarrow> cur \<le> start_col cb"
proof (induction cuts arbitrary: cur cbs)
  case Nil
  then show ?case by simp
next
  case (Cons c cuts)
  from Cons.prems(1) obtain l rest where
    rest: "allocate_cuts blocks (cur + int (cut_width blocks (length (categories c))) - 1 + 7) cuts
             = Some rest"
    and cbs: "cbs = \<lparr>cb_raw_col_index = raw_col_index c, raw_col_letter = l,
                     cb_categories = categories c, num_cat = length (categories c),
                     start_col = cur,
                     end_col = cur + int (cut_width blocks (length (categories c))) - 1,
                     max_width = cut_width blocks (length (categories c))\<rparr> # rest"
    by (auto simp: Let_def split: option.splits)
  have "0 \<le> int (cut_width blocks (length (categories c)))" by simp
  with Cons.prems(2) cbs Cons.IH [OF rest] show ?case
    by auto
qed

lemma allocate_cuts_layout:
  "allocate_cuts blocks cur cuts = Some cbs \<Longrightarrow>
   map cb_categories cbs = map categories cuts \<and>
   sorted_wrt (\<lambda>a b. end_col a < start_col b) cbs \<and>
   (\<forall>cb \<in> set cbs.
      end_col cb = start_col cb + int (max_width cb) - 1 \<and>
      num_cat cb = length (cb_categories cb) \<and>
      2 * num_cat cb \<le> max_width cb \<and>
      (\<forall>b \<in> set blocks.
         (is_matrix b \<longrightarrow> 2 * num_rating_cols b + 1 \<le> max_width cb) \<and>
         (is_bipolar b \<and> \<not> is_matrix b \<longrightarrow> 5 \<le> max_width cb)))"
proof (induction cuts arbitrary: cur cbs)
  case Nil
  then show ?case by simp
next
  case (Cons c cuts)
  let ?w = "cut_width blocks (length (categories c))"
  from Cons.prems obtain l rest where
    rest: "allocate_cuts blocks (cur + int ?w - 1 + 7) cuts = Some rest"
    and cbs: "cbs = \<lparr>cb_raw_col_index = raw_col_index c, raw_col_letter = l,
                     cb_categories = categories c, num_cat = length (categories c),
                     start_col = cur, end_col = cur + int ?w - 1,
                     max_width = ?w\<rparr> # rest"
    by (auto simp: Let_def split: option.splits)
  have later: "cur + int ?w - 1 < start_col cb" if "cb \<in> set rest" for cb
    using allocate_cuts_start [OF rest that] by simp
  have here: "2 * length (categories c) \<le> ?w \<and>
      (\<forall>b \<in> set blocks.
         (is_matrix b \<longrightarrow> 2 * num_rating_cols b + 1 \<le> ?w) \<and>
         (is_bipolar b \<and> \<not> is_matrix b \<longrightarrow> 5 \<le> ?w))"
    using fold_widen_ge [of "2 * length (categories c)" blocks]
          fold_widen_matrix [of _ blocks "2 * length (categories c)"]
          fold_widen_bipolar [of _ blocks "2 * length (categories c)"]
    by (simp add: cut_width_def)
  from Cons.IH [OF rest] cbs later here show ?case
    by auto
qed

lemma allocate_cuts_total:
  "\<forall>c \<in> set cuts. 1 \<le> raw_col_index c \<and> raw_col_index c \<le> 18278 \<Longrightarrow>
   \<exists>cbs. allocate_cuts blocks cur cuts = Some cbs"
  by (induction cuts arbitrary: cur) (auto simp: Let_def get_column_letter_def)


lemma letter_3: "get_column_letter 3 = Some ''C''"
  by (simp add: get_column_letter_def get_excel_column_letter_def)

lemma letter_28: "get_column_letter 28 = Some ''AB''"
  by (simp add: get_column_letter_def get_excel_column_letter_def)


section \<open>Properties of the multi-select split\<close>

lemma flat_open_not_closes: "flat_parens False cs \<Longrightarrow> \<not> closes_first cs"
  by (induction cs) (auto split: if_splits)

lemma flat_inside_closes: "flat_parens True cs \<Longrightarrow> closes_first cs"
  by (induction cs) (auto split: if_splits)

lemma is_space_not_paren: "is_space c \<Longrightarrow> c \<noteq> CHR ''('' \<and> c \<noteq> CHR '')''"
  by (auto simp: is_space_def)

lemma flat_dropWhile: "flat_parens b (dropWhile is_space cs) = flat_parens b cs"
  by (induction cs) (auto dest: is_space_not_paren)

lemma split_flat:
  "flat_parens (d = 1) cs \<Longrightarrow> d \<le> 1 \<Longrightarrow>
   re_split_commas acc cs = split_outside_parens d acc cs"
proof (induction acc cs arbitrary: d rule: re_split_commas.induct)
  case (1 acc)
  then show ?case by simp
next
  case (2 acc c cs)
  show ?case
  proof (cases "d = 0")
    case True
    with "2.prems" have f: "c \<noteq> CHR '')''"
      "flat_parens (c = CHR ''('') cs"
      by (auto split: if_splits)
    show ?thesis
    proof (cases "c = CHR '',''")
      case True
      with f have fc: "flat_parens False cs" by simp
      then have nc: "\<not> closes_first cs" by (rule flat_open_not_closes)
      from fc have "flat_parens ((0::nat) = 1) (dropWhile is_space cs)"
        by (simp add: flat_dropWhile)
      with "2.IH"(1) [of 0] True nc \<open>d = 0\<close> show ?thesis by simp
    next
      case False
      let ?d = "if c = CHR ''('' then 1 else (0::nat)"
      from f have "flat_parens (?d = 1) cs" by auto
      with "2.IH"(2) [of ?d] False \<open>d = 0\<close> show ?thesis by auto
    qed
  next
    case False
    with "2.prems" have d1: "d = 1" by simp
    with "2.prems" have f: "c \<noteq> CHR ''(''" "flat_parens (c \<noteq> CHR '')'') cs"
      by (auto split: if_splits)
    show ?thesis
    proof (cases "c = CHR '',''")
      case True
      with f have "flat_parens True cs" by simp
      then have cl: "closes_first cs" by (rule flat_inside_closes)
      from \<open>flat_parens True cs\<close> have "flat_parens ((1::nat) = 1) cs" by simp
      with "2.IH"(2) [of 1] True cl d1 show ?thesis by simp
    next
      case False
      let ?d = "if c = CHR '')'' then 0 else (1::nat)"
      from f have "flat_parens (?d = 1) cs" by auto
      with "2.IH"(2) [of ?d] False d1 f show ?thesis by auto
    qed
  qed
qed


text \<open>
  Claim C8, as the code has it.  The example of the specification splits into its three
  tokens, and on every text whose parentheses are balanced and not nested the pieces are
  those of a split at the commas outside parentheses.
\<close>

theorem split_multi_select_flat:
  "split_multi_select_options ''Red, Blue (Light, Dark), Green'' =
     [''Red'', ''Blue (Light, Dark)'', ''Green''] \<and>
   (flat_parens False text \<longrightarrow>
      re_split_commas [] text = split_outside_parens 0 [] text \<and>
      split_multi_select_options text =
        filter (\<lambda>p. p \<noteq> []) (map strip (split_outside_parens 0 [] text)))"
proof (intro conjI impI)
  show "split_multi_select_options ''Red, Blue (Light, Dark), Green'' =
          [''Red'', ''Blue (Light, Dark)'', ''Green'']"
    by (simp add: split_multi_select_options_def strip_def lstrip_def rstrip_def is_space_def)
next
  assume "flat_parens False text"
  then have "flat_parens ((0::nat) = 1) text" by simp
  then show e: "re_split_commas [] text = split_outside_parens 0 [] text"
    by (rule split_flat) simp
  show "split_multi_select_options text =
          filter (\<lambda>p. p \<noteq> []) (map strip (split_outside_parens 0 [] text))"
    by (simp add: split_multi_select_options_def e)
qed

theorem split_multi_select_flat_witness:
  "flat_parens False ''Tea, Coffee (hot, iced)'' \<and>
   split_multi_select_options ''Tea, Coffee (hot, iced)'' = [''Tea'', ''Coffee (hot, iced)''] \<and>
   filter (\<lambda>p. p \<noteq> []) (map strip (split_outside_parens 0 [] ''Tea, Coffee (hot, iced)'')) =
     [''Tea'', ''Coffee (hot, iced)'']"
proof -
  have f: "flat_parens False ''Tea, Coffee (hot, iced)''"
    by simp
  have v: "split_multi_select_options ''Tea, Coffee (hot, iced)'' = [''Tea'', ''Coffee (hot, iced)'']"
    by (simp add: split_multi_select_options_def strip_def lstrip_def rstrip_def is_space_def)
  from split_multi_select_flat [of "''Tea, Coffee (hot, iced)''"] f v show ?thesis
    by simp
qed

text \<open>
  Claim C8 as stated fails on nested parentheses: a comma inside the outer pair is
  followed by an opening parenthesis, so the code splits there.
\<close>

theorem split_multi_select_counterexample:
  "split_multi_select_options ''A (x, (y)), B'' = [''A (x'', ''(y))'', ''B''] \<and>
   filter (\<lambda>p. p \<noteq> []) (map strip (split_outside_parens 0 [] ''A (x, (y)), B'')) =
     [''A (x, (y))'', ''B'']"
  by (simp add: split_multi_select_options_def strip_def lstrip_def rstrip_def is_space_def)

section \<open>NPS expansion on concrete texts\<close>

text \<open>
  Claim C4 on a text with unquoted endpoint meanings.  The text contains
  \<^verbatim>\<open>scale of 0 to 10\<close>, \<^verbatim>\<open>1 means Poor\<close> and \<^verbatim>\<open>10 means Excellent\<close>; the group of the
  first pattern runs to the end of the text, so the first option is not \<^verbatim>\<open>1- Poor\<close>.
  With the meanings in double quotes the expansion is the list of the claim.
\<close>

theorem expand_nps_unquoted_endpoints:
  \<open>expand_nps_if_needed ''On a scale of 0 to 10, where 1 means Poor and 10 means Excellent''
      [''Bad'', ''Good''] =
     [''1- Poor and 10 means Excellent'', ''2'', ''3'', ''4'', ''5''] @
     [''6'', ''7'', ''8'', ''9'', ''10- Excellent''] \<and>
   expand_nps_if_needed
      ''On a scale of 0 to 10, where 1 means "Poor" and 10 means "Excellent"''
      [''Bad'', ''Good''] =
     [''1- Poor'', ''2'', ''3'', ''4'', ''5''] @ [''6'', ''7'', ''8'', ''9'', ''10- Excellent'']\<close>
  by (simp add: expand_nps_if_needed_def means_group_def str_eval upt_rec)

section \<open>Properties of the bipolar pole pairs\<close>

lemma lower_char_space: "lower_char c = CHR '' '' \<Longrightarrow> c = CHR '' ''"
  by (auto simp: lower_char_def split: if_splits)

lemma lower_char_o: "lower_char c = CHR ''o'' \<Longrightarrow> \<not> is_space c"
  by (auto simp: lower_char_def is_space_def split: if_splits)

lemma is_space_blank: "is_space (CHR '' '')"
  by (simp add: is_space_def)

lemma or_token_matches:
  assumes "startswith (lower s) '' or ''"
  shows "or_sep_at s \<noteq> None"
proof -
  from assms obtain c0 c1 c2 c3 rest where s: "s = c0 # c1 # c2 # c3 # rest"
    and l: "lower_char c0 = CHR '' ''" "lower_char c1 = CHR ''o''"
           "lower_char c2 = CHR ''r''" "lower_char c3 = CHR '' ''"
    by (cases s; cases "tl s"; cases "tl (tl s)"; cases "tl (tl (tl s))")
       (auto simp: startswith_def lower_def)
  from l have c: "c0 = CHR '' ''" "c3 = CHR '' ''" "\<not> is_space c1"
    by (auto dest: lower_char_space lower_char_o)
  with s l show ?thesis
    by (simp add: or_sep_at_def Let_def is_space_blank lower_def)
qed

lemma split_or_finds:
  "contains (lower s) '' or '' \<Longrightarrow> \<exists>a b. split_or acc s = Some (a, b)"
proof (induction s arbitrary: acc)
  case Nil
  then show ?case by (simp add: lower_def)
next
  case (Cons c cs)
  show ?case
  proof (cases "or_sep_at (c # cs)")
    case (Some rest)
    then show ?thesis by simp
  next
    case None
    with or_token_matches [of "c # cs"] have "\<not> startswith (lower (c # cs)) '' or ''"
      by blast
    with Cons.prems have "contains (lower cs) '' or ''"
      by (simp add: lower_def)
    from Cons.IH [OF this, of "c # acc"] None show ?thesis by simp
  qed
qed


lemma or_sep_at_shape:
  assumes "or_sep_at s = Some b"
  shows "\<exists>w1 x w2. s = w1 @ x @ w2 @ b \<and> w1 \<noteq> [] \<and> list_all is_space w1 \<and>
           lower x = ''or'' \<and> w2 \<noteq> [] \<and> list_all is_space w2 \<and>
           (b = [] \<or> \<not> is_space (hd b))"
proof -
  let ?w1 = "takeWhile is_space s" and ?r = "dropWhile is_space s"
  let ?w2 = "takeWhile is_space (drop 2 ?r)"
  from assms have w1: "?w1 \<noteq> []" and x: "lower (take 2 ?r) = ''or''" and w2: "?w2 \<noteq> []"
    and b: "b = dropWhile is_space (drop 2 ?r)"
    by (auto simp: or_sep_at_def Let_def split: if_splits)
  have "s = ?w1 @ ?r" by simp
  also have "?r = take 2 ?r @ drop 2 ?r" by simp
  also have "drop 2 ?r = ?w2 @ b" by (simp add: b)
  finally have s: "s = ?w1 @ take 2 ?r @ ?w2 @ b" .
  have sp: "list_all is_space ?w1" "list_all is_space ?w2"
    by (auto simp: list_all_iff dest: set_takeWhileD)
  have hb: "b = [] \<or> \<not> is_space (hd b)"
    unfolding b by (metis hd_dropWhile)
  from s w1 x w2 sp hb show ?thesis by blast
qed

lemma split_or_shape:
  "split_or acc s = Some (a, b) \<Longrightarrow>
   \<exists>p w1 x w2. a = rev acc @ p \<and> s = p @ w1 @ x @ w2 @ b \<and>
      w1 \<noteq> [] \<and> list_all is_space w1 \<and> lower x = ''or'' \<and>
      w2 \<noteq> [] \<and> list_all is_space w2 \<and> (b = [] \<or> \<not> is_space (hd b)) \<and>
      (\<forall>k < length p. or_sep_at (drop k s) = None)"
proof (induction s arbitrary: acc)
  case Nil
  then show ?case by simp
next
  case (Cons c cs)
  show ?case
  proof (cases "or_sep_at (c # cs)")
    case (Some rest)
    with Cons.prems have a: "a = rev acc" and b: "b = rest" by simp_all
    from or_sep_at_shape [OF Some] b obtain w1 x w2 where
      "c # cs = [] @ w1 @ x @ w2 @ b" "w1 \<noteq> []" "list_all is_space w1" "lower x = ''or''"
      "w2 \<noteq> []" "list_all is_space w2" "b = [] \<or> \<not> is_space (hd b)"
      by auto
    with a show ?thesis
      by (intro exI [of _ "[]"] exI [of _ w1] exI [of _ x] exI [of _ w2]) simp
  next
    case None
    with Cons.prems have "split_or (c # acc) cs = Some (a, b)" by simp
    from Cons.IH [OF this] obtain p w1 x w2 where
      h: "a = rev (c # acc) @ p" "cs = p @ w1 @ x @ w2 @ b" "w1 \<noteq> []" "list_all is_space w1"
         "lower x = ''or''" "w2 \<noteq> []" "list_all is_space w2" "b = [] \<or> \<not> is_space (hd b)"
         "\<forall>k < length p. or_sep_at (drop k cs) = None"
      by blast
    have first: "\<forall>k < length (c # p). or_sep_at (drop k (c # cs)) = None"
    proof (intro allI impI)
      fix k assume "k < length (c # p)"
      then show "or_sep_at (drop k (c # cs)) = None"
        using None h(9) by (cases k) auto
    qed
    from h first show ?thesis
      by (intro exI [of _ "c # p"] exI [of _ w1] exI [of _ x] exI [of _ w2]) simp
  qed
qed

lemma in_set_dropWhile: "c \<in> set s \<Longrightarrow> \<not> P c \<Longrightarrow> c \<in> set (dropWhile P s)"
  by (induction s) auto

lemma strip_nonempty: "c \<in> set s \<Longrightarrow> \<not> is_space c \<Longrightarrow> strip s \<noteq> []"
proof -
  assume c: "c \<in> set s" "\<not> is_space c"
  then have "c \<in> set (dropWhile is_space s)" by (rule in_set_dropWhile)
  then have "c \<in> set (rev (dropWhile is_space s))" by simp
  with c(2) have "c \<in> set (dropWhile is_space (rev (dropWhile is_space s)))"
    by (intro in_set_dropWhile)
  then have "dropWhile is_space (rev (dropWhile is_space s)) \<noteq> []"
    by (metis empty_iff list.set(1))
  then show ?thesis
    by (simp add: strip_def lstrip_def rstrip_def del: dropWhile_eq_Nil_conv)
qed

lemma last_dropWhile: "dropWhile P xs \<noteq> [] \<Longrightarrow> last (dropWhile P xs) = last xs"
  by (induction xs) (auto split: if_splits)

lemma strip_ends:
  "strip s = [] \<or> (\<not> is_space (hd (strip s)) \<and> \<not> is_space (last (strip s)))"
proof (cases "strip s = []")
  case True
  then show ?thesis by simp
next
  case False
  let ?l = "dropWhile is_space s"
  let ?r = "dropWhile is_space (rev ?l)"
  from False have r: "?r \<noteq> []" by (simp add: strip_def lstrip_def rstrip_def)
  then have "\<not> is_space (hd ?r)" by (metis hd_dropWhile)
  with r have la: "\<not> is_space (last (strip s))"
    by (simp add: strip_def lstrip_def rstrip_def last_rev)
  have l: "?l \<noteq> []"
  proof
    assume "?l = []"
    then have "?r = []" by (simp del: dropWhile_eq_Nil_conv)
    with r show False by (simp del: dropWhile_eq_Nil_conv)
  qed
  then have hl: "\<not> is_space (hd ?l)" by (metis hd_dropWhile)
  from r have "last ?r = last (rev ?l)" by (rule last_dropWhile)
  with l have "last ?r = hd ?l" by (simp add: last_rev)
  with r hl have "\<not> is_space (hd (strip s))"
    by (simp add: strip_def lstrip_def rstrip_def hd_rev)
  with la show ?thesis by simp
qed

lemma pole_pair_total: "pole_pair opt \<noteq> None"
  using split_or_finds [of opt "[]"] by (auto simp: pole_pair_def)

lemma those_map_total:
  "\<forall>x \<in> set xs. f x \<noteq> None \<Longrightarrow> those (map f xs) = Some (map (\<lambda>x. the (f x)) xs)"
  by (induction xs) auto

lemma bipolar_config_eq:
  "bipolar_config cells =
     Some \<lparr>be_options = group_options cells,
           be_pole_pairs = map (\<lambda>opt. the (pole_pair opt)) (group_options cells)\<rparr>"
  by (simp add: bipolar_config_def Let_def those_map_total pole_pair_total)

lemma pole_pair_split:
  assumes c: "contains (lower opt) '' or ''"
    and e: "opt = [] \<or> (\<not> is_space (hd opt) \<and> \<not> is_space (last opt))"
  shows "\<exists>p w1 x w2 b. opt = p @ w1 @ x @ w2 @ b \<and>
           w1 \<noteq> [] \<and> list_all is_space w1 \<and> lower x = ''or'' \<and>
           w2 \<noteq> [] \<and> list_all is_space w2 \<and>
           (\<forall>k < length p. or_sep_at (drop k opt) = None) \<and>
           pole_pair opt = Some (strip p, strip b) \<and> strip p \<noteq> [] \<and> strip b \<noteq> []"
proof -
  from split_or_finds [OF c, of "[]"] obtain a b where ab: "split_or [] opt = Some (a, b)"
    by blast
  from split_or_shape [OF ab] obtain w1 x w2 where
    h: "opt = a @ w1 @ x @ w2 @ b" "w1 \<noteq> []" "list_all is_space w1" "lower x = ''or''"
       "w2 \<noteq> []" "list_all is_space w2" "b = [] \<or> \<not> is_space (hd b)"
       "\<forall>k < length a. or_sep_at (drop k opt) = None"
    by auto
  from h(1,2) have ne: "opt \<noteq> []" by auto
  with e have ends: "\<not> is_space (hd opt)" "\<not> is_space (last opt)" by simp_all
  have a: "a \<noteq> []"
  proof
    assume "a = []"
    with h(1,2) have "hd opt = hd w1" by simp
    moreover from h(2,3) have "is_space (hd w1)" by (cases w1) simp_all
    ultimately show False using ends by simp
  qed
  with h(1) have "hd a = hd opt" by simp
  with ends a have sa: "strip a \<noteq> []"
    using strip_nonempty [of "hd a" a] hd_in_set [of a] by simp
  have b: "b \<noteq> []"
  proof
    assume "b = []"
    with h(1,5) have "last opt = last w2" by simp
    moreover from h(5,6) have "is_space (last w2)" by (simp add: list_all_iff)
    ultimately show False using ends by simp
  qed
  with h(7) have sb: "strip b \<noteq> []"
    using strip_nonempty [of "hd b" b] hd_in_set [of b] by simp
  from c ab have "pole_pair opt = Some (strip a, strip b)"
    by (simp add: pole_pair_def)
  with h sa sb show ?thesis by blast
qed

lemma group_options_ends:
  "opt \<in> set (group_options cells) \<Longrightarrow>
   opt = [] \<or> (\<not> is_space (hd opt) \<and> \<not> is_space (last opt))"
  using strip_ends by (auto simp: group_options_def)

text \<open>
  Claim C5, as the code has it.  Loading a bipolar question never fails, and its pole
  pairs are as many as its options.  An option that contains the token \<^verbatim>\<open> or \<close> (in
  any case) is split at the leftmost place where the word \<^verbatim>\<open>or\<close> stands between two
  runs of whitespace of any kind; the two sides, stripped, are the poles, and both are
  non-empty.  An option without the token yields the option and the empty string.
\<close>

theorem bipolar_pole_pairs:
  "\<exists>pairs.
     bipolar_config cells =
       Some \<lparr>be_options = group_options cells, be_pole_pairs = pairs\<rparr> \<and>
     length pairs = length (group_options cells) \<and>
     (\<forall>i < length pairs.
        (contains (lower (group_options cells ! i)) '' or '' \<longrightarrow>
           (\<exists>p w1 x w2 b.
              group_options cells ! i = p @ w1 @ x @ w2 @ b \<and>
              w1 \<noteq> [] \<and> list_all is_space w1 \<and> lower x = ''or'' \<and>
              w2 \<noteq> [] \<and> list_all is_space w2 \<and>
              (\<forall>k < length p. or_sep_at (drop k (group_options cells ! i)) = None) \<and>
              pairs ! i = (strip p, strip b) \<and> strip p \<noteq> [] \<and> strip b \<noteq> [])) \<and>
        (\<not> contains (lower (group_options cells ! i)) '' or '' \<longrightarrow>
           pairs ! i = (group_options cells ! i, [])))"
proof -
  let ?opts = "group_options cells"
  let ?pairs = "map (\<lambda>opt. the (pole_pair opt)) ?opts"
  have "\<forall>i < length ?pairs.
        (contains (lower (?opts ! i)) '' or '' \<longrightarrow>
           (\<exists>p w1 x w2 b.
              ?opts ! i = p @ w1 @ x @ w2 @ b \<and>
              w1 \<noteq> [] \<and> list_all is_space w1 \<and> lower x = ''or'' \<and>
              w2 \<noteq> [] \<and> list_all is_space w2 \<and>
              (\<forall>k < length p. or_sep_at (drop k (?opts ! i)) = None) \<and>
              ?pairs ! i = (strip p, strip b) \<and> strip p \<noteq> [] \<and> strip b \<noteq> [])) \<and>
        (\<not> contains (lower (?opts ! i)) '' or '' \<longrightarrow> ?pairs ! i = (?opts ! i, []))"
  proof (intro allI impI conjI)
    fix i assume i: "i < length ?pairs" and c: "contains (lower (?opts ! i)) '' or ''"
    from i have "?opts ! i \<in> set ?opts" by simp
    from pole_pair_split [OF c group_options_ends [OF this]] obtain p w1 x w2 b where
      h: "?opts ! i = p @ w1 @ x @ w2 @ b" "w1 \<noteq> []" "list_all is_space w1"
         "lower x = ''or''" "w2 \<noteq> []" "list_all is_space w2"
         "\<forall>k < length p. or_sep_at (drop k (?opts ! i)) = None"
         "pole_pair (?opts ! i) = Some (strip p, strip b)" "strip p \<noteq> []" "strip b \<noteq> []"
      by blast
    from i h(8) have "?pairs ! i = (strip p, strip b)" by simp
    with h show "\<exists>p w1 x w2 b.
              ?opts ! i = p @ w1 @ x @ w2 @ b \<and>
              w1 \<noteq> [] \<and> list_all is_space w1 \<and> lower x = ''or'' \<and>
              w2 \<noteq> [] \<and> list_all is_space w2 \<and>
              (\<forall>k < length p. or_sep_at (drop k (?opts ! i)) = None) \<and>
              ?pairs ! i = (strip p, strip b) \<and> strip p \<noteq> [] \<and> strip b \<noteq> []"
      by blast
  next
    fix i assume "i < length ?pairs" and "\<not> contains (lower (?opts ! i)) '' or ''"
    then show "?pairs ! i = (?opts ! i, [])"
      by (simp add: pole_pair_def)
  qed
  with bipolar_config_eq [of cells] show ?thesis
    by (intro exI [of _ ?pairs]) simp
qed

theorem bipolar_pole_pairs_witness:
  "bipolar_config
     [Some ''Cheap or Expensive'', None, Some '' Old  OR New '', Some ''Plain'',
      Some ''Cheap or Expensive''] =
   Some \<lparr>be_options = [''Cheap or Expensive'', ''Old  OR New'', ''Plain''],
         be_pole_pairs = [(''Cheap'', ''Expensive''), (''Old'', ''New''), (''Plain'', [])]\<rparr>"
proof -
  let ?cells = "[Some ''Cheap or Expensive'', None, Some '' Old  OR New '', Some ''Plain'',
      Some ''Cheap or Expensive'']"
  have g: "group_options ?cells = [''Cheap or Expensive'', ''Old  OR New'', ''Plain'']"
    by (simp add: group_options_def dropna_def List.map_filter_def str_eval)
  have p: "pole_pair ''Cheap or Expensive'' = Some (''Cheap'', ''Expensive'')"
          "pole_pair ''Old  OR New'' = Some (''Old'', ''New'')"
          "pole_pair ''Plain'' = Some (''Plain'', [])"
    by (simp_all add: pole_pair_def or_sep_at_def str_eval)
  from bipolar_pole_pairs [of ?cells] obtain pairs where
    "bipolar_config ?cells = Some \<lparr>be_options = group_options ?cells, be_pole_pairs = pairs\<rparr>"
    by blast
  moreover have "bipolar_config ?cells =
      Some \<lparr>be_options = [''Cheap or Expensive'', ''Old  OR New'', ''Plain''],
         be_pole_pairs = [(''Cheap'', ''Expensive''), (''Old'', ''New''), (''Plain'', [])]\<rparr>"
    by (simp add: bipolar_config_def g p)
  ultimately show ?thesis by simp
qed

text \<open>
  Claim C5 as stated fails when a tabulator stands before an earlier \<^verbatim>\<open>or\<close>: the
  first occurrence of the token \<^verbatim>\<open> or \<close> is the later one, but the code splits at the
  earlier word.
\<close>

theorem bipolar_pole_pairs_counterexample:
  "pole_pair (''Hot'' @ [CHR 0x09] @ ''or cold or warm'') = Some (''Hot'', ''cold or warm'') \<and>
   split_first_token '' or '' [] (''Hot'' @ [CHR 0x09] @ ''or cold or warm'') =
     Some (''Hot'' @ [CHR 0x09] @ ''or cold'', ''warm'')"
  by (simp add: pole_pair_def or_sep_at_def str_eval)

section \<open>Properties of the tabulation engine\<close>












section \<open>Properties of the multi-select tabulation\<close>

lemma count_list_concat:
  "count_list (concat xss) x = sum_list (map (\<lambda>xs. count_list xs x) xss)"
  by (induction xss) simp_all

lemma value_counts_count:
  "(v, n) \<in> set (value_counts xs) \<Longrightarrow> n = count_list xs v"
  by (auto simp: value_counts_def)

lemma multi_rows_count:
  "r \<in> set (process_multi_select series opts) \<Longrightarrow>
   res_base r = length (dropna series) \<and>
   res_count r =
     sum_list (map (\<lambda>v. count_list (cell_tokens v) (res_option r)) (dropna series))"
  by (auto simp: process_multi_select_def Let_def count_list_concat comp_def
           dest: value_counts_count split: if_splits)

lemma join_hd: "x \<noteq> [] \<Longrightarrow> hd x \<in> set (join sep (x # xs))"
  by (cases xs) auto

lemma cell_text_stripped: "t \<in> set (cell_text v) \<Longrightarrow> t \<noteq> [] \<and> \<not> is_space (hd t)"
  using strip_ends by (auto simp: cell_text_def split: option.splits if_splits)

lemma join_filled:
  assumes "values \<noteq> []" "\<forall>t \<in> set values. t \<noteq> [] \<and> \<not> is_space (hd t)"
  shows "strip (join sep values) \<noteq> []"
proof -
  from assms obtain x xs where v: "values = x # xs" by (cases "values") auto
  with assms have "x \<noteq> []" "\<not> is_space (hd x)" by auto
  with join_hd [of x sep xs] strip_nonempty [of "hd x" "join sep (x # xs)"] v
  show ?thesis by simp
qed

lemma those_length: "those xs = Some ys \<Longrightarrow> length ys = length xs"
  by (induction xs arbitrary: ys) (auto split: option.splits)

lemma those_nth: "those xs = Some ys \<Longrightarrow> i < length xs \<Longrightarrow> xs ! i = Some (ys ! i)"
proof (induction xs arbitrary: ys i)
  case Nil
  then show ?case by simp
next
  case (Cons x xs)
  then show ?case by (cases i) (auto split: option.splits)
qed

lemma those_map_iloc:
  "those (map (iloc row) cols) = Some vals \<Longrightarrow> vals = map (\<lambda>c. row ! c) cols"
proof (induction cols arbitrary: vals)
  case Nil
  then show ?case by simp
next
  case (Cons c cols)
  then show ?case by (auto simp: iloc_def split: option.splits if_splits)
qed

lemma merge_row_value:
  assumes "merge_row main_col unnamed row = Some cell"
  shows "(cell = None \<longleftrightarrow> (\<forall>c \<in> set (main_col # unnamed). cell_text (row ! c) = [])) \<and>
         (\<forall>v. cell = Some v \<longrightarrow> strip v \<noteq> [])"
proof -
  from assms obtain vals where
    t: "those (map (iloc row) (main_col # unnamed)) = Some vals"
    and c: "cell = (if concat (map cell_text vals) \<noteq> []
                    then Some (join '', '' (concat (map cell_text vals))) else None)"
    by (auto simp: merge_row_def Let_def split: option.splits)
  from those_map_iloc [OF t] have vals: "vals = map (\<lambda>c. row ! c) (main_col # unnamed)" .
  have st: "\<forall>t \<in> set (concat (map cell_text vals)). t \<noteq> [] \<and> \<not> is_space (hd t)"
    using cell_text_stripped by auto
  have "cell = None \<longleftrightarrow> (\<forall>c \<in> set (main_col # unnamed). cell_text (row ! c) = [])"
    unfolding c vals by auto
  moreover have "\<forall>v. cell = Some v \<longrightarrow> strip v \<noteq> []"
    using c join_filled [OF _ st, of "'', ''"] by (auto split: if_splits)
  ultimately show ?thesis by blast
qed

lemma merge_rows:
  assumes "merge_unnamed_columns df main_col unnamed = Some series"
  shows "length series = length df \<and>
         (\<forall>i < length df.
            (series ! i = None \<longleftrightarrow>
               (\<forall>c \<in> set (main_col # unnamed). cell_text (df ! i ! c) = [])) \<and>
            (\<forall>v. series ! i = Some v \<longrightarrow> strip v \<noteq> []))"
proof -
  from assms have t: "those (map (merge_row main_col unnamed) df) = Some series"
    by (simp add: merge_unnamed_columns_def)
  from those_length [OF t] have l: "length series = length df" by simp
  have "(series ! i = None \<longleftrightarrow>
               (\<forall>c \<in> set (main_col # unnamed). cell_text (df ! i ! c) = [])) \<and>
            (\<forall>v. series ! i = Some v \<longrightarrow> strip v \<noteq> [])" if "i < length df" for i
  proof -
    from those_nth [OF t, of i] that
    have "merge_row main_col unnamed (df ! i) = Some (series ! i)" by simp
    from merge_row_value [OF this] show ?thesis .
  qed
  with l show ?thesis by blast
qed

lemma drop_duplicates_set: "set (drop_duplicates xs) = set xs"
  by (induction xs rule: drop_duplicates.induct) auto

lemma drop_duplicates_distinct: "distinct (drop_duplicates xs)"
  by (induction xs rule: drop_duplicates.induct) (auto simp: drop_duplicates_set)

lemma insort_key_map_distinct:
  "distinct (map f (insort_key k x xs)) = distinct (map f (x # xs))"
  by (induction xs) (auto simp: set_insort_key)

lemma sort_key_map_distinct: "distinct (map f (sort_key k xs)) = distinct (map f xs)"
proof (induction xs)
  case Nil
  show ?case by simp
next
  case (Cons a xs)
  have "sort_key k (a # xs) = insort_key k a (sort_key k xs)"
    by (simp add: sort_key_def)
  with Cons show ?case
    by (simp add: insort_key_map_distinct)
qed

lemma value_counts_keys:
  "set (map fst (value_counts xs)) = set xs" "distinct (map fst (value_counts xs))"
  by (auto simp: value_counts_def sort_key_map_distinct comp_def drop_duplicates_set
                 drop_duplicates_distinct image_iff split_def)

lemma multi_rows_declared:
  "opts \<noteq> [] \<Longrightarrow> map res_option (process_multi_select series opts) = opts"
  by (simp add: process_multi_select_def Let_def comp_def)

lemma multi_rows_free:
  "set (map res_option (process_multi_select series [])) =
     set (concat (map cell_tokens (dropna series)))"
  "distinct (map res_option (process_multi_select series []))"
  "sorted (map (\<lambda>r. - int (res_count r)) (process_multi_select series []))"
proof -
  let ?all = "concat (map cell_tokens (dropna series))"
  let ?g = "\<lambda>(opt, n). \<lparr>res_option = opt, res_count = n,
                        res_percentage = percentage_of n (length (dropna series)),
                        res_base = length (dropna series)\<rparr>"
  have e: "process_multi_select series [] =
             sort_key (\<lambda>r. - int (res_count r)) (map ?g (value_counts ?all))"
    by (simp add: process_multi_select_def Let_def)
  have m: "map res_option (map ?g (value_counts ?all)) = map fst (value_counts ?all)"
    by (simp add: comp_def split_def)
  show "distinct (map res_option (process_multi_select series []))"
    unfolding e sort_key_map_distinct m by (rule value_counts_keys(2))
  have "set (map res_option (process_multi_select series [])) =
          set (map res_option (map ?g (value_counts ?all)))"
    unfolding e by (simp only: set_map set_sort)
  also have "\<dots> = set ?all" unfolding m by (rule value_counts_keys(1))
  finally show "set (map res_option (process_multi_select series [])) = set ?all" .
  show "sorted (map (\<lambda>r. - int (res_count r)) (process_multi_select series []))"
    unfolding e by (rule sorted_sort_key)
qed

text \<open>
  Claim C9, as the code has it.  The merged series has one entry per row, missing exactly
  when no column of the question holds text in that row, and otherwise a text that is
  not blank.  With declared options the multi-select tabulation reports one row for each
  declared option, in order, and no row for any other token; without declared options
  it reports exactly one row for each distinct token of the series, by falling count.
  In every reported row the base is the number of entries of the series that are not
  missing, and the count is the sum, over these entries, of the occurrences of the
  option among the tokens of the entry, where an entry that is one of the two
  placeholder texts has no tokens.  The entries that contribute a token are at most as
  many as the base.
\<close>

theorem multi_select_base_and_counts:
  "(\<forall>r \<in> set (process_multi_select series opts).
      res_base r = length (dropna series) \<and>
      res_count r =
        sum_list (map (\<lambda>v. count_list (cell_tokens v) (res_option r)) (dropna series))) \<and>
   (opts \<noteq> [] \<longrightarrow> map res_option (process_multi_select series opts) = opts) \<and>
   set (map res_option (process_multi_select series [])) =
     set (concat (map cell_tokens (dropna series))) \<and>
   distinct (map res_option (process_multi_select series [])) \<and>
   sorted (map (\<lambda>r. - int (res_count r)) (process_multi_select series [])) \<and>
   length (filter (\<lambda>v. cell_tokens v \<noteq> []) (dropna series)) \<le> length (dropna series) \<and>
   cell_tokens ''Response'' = [] \<and> cell_tokens ''Open-Ended Response'' = [] \<and>
   (strip v \<notin> set ['''', ''Response'', ''Open-Ended Response''] \<longrightarrow>
      cell_tokens v = split_multi_select_options (strip v)) \<and>
   (merge_unnamed_columns df main_col unnamed = Some merged \<longrightarrow>
      length merged = length df \<and>
      (\<forall>i < length df.
         (merged ! i = None \<longleftrightarrow>
            (\<forall>c \<in> set (main_col # unnamed). cell_text (df ! i ! c) = [])) \<and>
         (\<forall>t. merged ! i = Some t \<longrightarrow> strip t \<noteq> [])))"
proof -
  have p: "cell_tokens ''Response'' = []" "cell_tokens ''Open-Ended Response'' = []"
    by (simp_all add: cell_tokens_def str_eval)
  have t: "strip v \<notin> set ['''', ''Response'', ''Open-Ended Response''] \<longrightarrow>
      cell_tokens v = split_multi_select_options (strip v)"
    by (simp add: cell_tokens_def Let_def)
  from multi_rows_count [of _ series opts] merge_rows [of df main_col unnamed merged] p t
       multi_rows_declared [of opts series] multi_rows_free [of series]
  show ?thesis by simp
qed

theorem multi_select_base_and_counts_witness:
  "merge_unnamed_columns
     [[Some ''1'', Some ''Tea'', Some '' Coffee (hot, iced)''], [Some ''2'', None, Some '' ''],
      [Some ''3'', None, Some ''Tea'']] 1 [2] =
     Some [Some ''Tea, Coffee (hot, iced)'', None, Some ''Tea''] \<and>
   process_multi_select [Some ''Tea, Coffee (hot, iced)'', None, Some ''Tea'']
     [''Tea'', ''Coffee (hot, iced)''] =
     [\<lparr>res_option = ''Tea'', res_count = 2, res_percentage = Rounded 2 2, res_base = 2\<rparr>,
      \<lparr>res_option = ''Coffee (hot, iced)'', res_count = 1, res_percentage = Rounded 1 2,
        res_base = 2\<rparr>] \<and>
   process_multi_select [Some ''Coffee, Tea'', None, Some ''Tea''] [] =
     [\<lparr>res_option = ''Tea'', res_count = 2, res_percentage = Rounded 2 2, res_base = 2\<rparr>,
      \<lparr>res_option = ''Coffee'', res_count = 1, res_percentage = Rounded 1 2, res_base = 2\<rparr>]"
proof -
  let ?df = "[[Some ''1'', Some ''Tea'', Some '' Coffee (hot, iced)''],
              [Some ''2'', None, Some '' ''], [Some ''3'', None, Some ''Tea'']]"
  let ?series = "[Some ''Tea, Coffee (hot, iced)'', None, Some ''Tea'']"
  have m: "merge_unnamed_columns ?df 1 [2] = Some ?series"
    by (simp add: merge_unnamed_columns_def merge_row_def iloc_def cell_text_def str_eval)
  have r: "process_multi_select ?series [''Tea'', ''Coffee (hot, iced)''] =
     [\<lparr>res_option = ''Tea'', res_count = 2, res_percentage = Rounded 2 2, res_base = 2\<rparr>,
      \<lparr>res_option = ''Coffee (hot, iced)'', res_count = 1, res_percentage = Rounded 1 2,
        res_base = 2\<rparr>]"
    by (simp add: process_multi_select_def cell_tokens_def split_multi_select_options_def
                  dropna_def List.map_filter_def percentage_of_def str_eval)
  have f: "process_multi_select [Some ''Coffee, Tea'', None, Some ''Tea''] [] =
     [\<lparr>res_option = ''Tea'', res_count = 2, res_percentage = Rounded 2 2, res_base = 2\<rparr>,
      \<lparr>res_option = ''Coffee'', res_count = 1, res_percentage = Rounded 1 2, res_base = 2\<rparr>]"
    by code_simp
  from multi_select_base_and_counts
         [where series = ?series and opts = "[''Tea'', ''Coffee (hot, iced)'']"
            and v = "''Tea''" and df = ?df and main_col = 1 and unnamed = "[2]"
            and merged = ?series]
       multi_select_base_and_counts
         [where series = "[Some ''Coffee, Tea'', None, Some ''Tea'']" and opts = "[]",
          THEN conjunct2, THEN conjunct2, THEN conjunct1]
       m r f
  show ?thesis by simp
qed

text \<open>
  Claim C9 as stated fails on a placeholder entry: the series has two entries that are
  not missing, so the base is 2, but only one of them contributes a token, and the token
  of the other entry is not counted.
\<close>

theorem multi_select_base_counterexample:
  "process_multi_select [Some ''Response'', Some ''Tea, Coffee'', None] [''Tea'', ''Response''] =
     [\<lparr>res_option = ''Tea'', res_count = 1, res_percentage = Rounded 1 2, res_base = 2\<rparr>,
      \<lparr>res_option = ''Response'', res_count = 0, res_percentage = Rounded 0 2,
        res_base = 2\<rparr>] \<and>
   length (filter (\<lambda>v. cell_tokens v \<noteq> [])
             (dropna [Some ''Response'', Some ''Tea, Coffee'', None])) = 1"
  by (simp add: process_multi_select_def cell_tokens_def split_multi_select_options_def
                dropna_def List.map_filter_def percentage_of_def str_eval)

section \<open>Properties of the segmentation\<close>


























end
